theory Spec2Isabelle
  imports Main
begin

section \<open>Data model of \<open>Select.vue\<close>\<close>

text \<open>
  Modelled from the spec: the \<open>Option\<close> type imported from \<open>./types\<close>, which is
  \<open>{ value: OptionValue, label: string, groupName?: string, disabled?: boolean }\<close>.
  The two optional fields are \<open>None\<close> when absent (JavaScript \<open>undefined\<close>). The field
  \<open>value\<close> is called \<open>val\<close> here.
\<close>

record 'v opt =
  val :: 'v
  label :: string
  groupName :: "string option"
  disabled :: "bool option"

text \<open>
  The model bound by \<open>defineModel<OptionValue | OptionValue[]>\<close>: a scalar, where
  \<open>undefined\<close> is \<open>Scalar None\<close>, or an array.
\<close>

datatype 'v model = Scalar "'v option" | Seq "'v list"

text \<open>
  The props the script reads, with the names of \<open>defineProps\<close>; \<open>placeholder\<close>,
  \<open>isClearable\<close>, \<open>isLoading\<close>, \<open>teleport\<close>, \<open>inputId\<close> and \<open>aria\<close> are read by the
  template only and are left out. Two more fields describe the instance and are no props
  of the source:
  \<^item> \<open>truthy\<close> is JavaScript's truthiness on the generic type \<open>OptionValue\<close> (a string is
    truthy unless empty, a number unless \<open>0\<close> or \<open>NaN\<close>), which \<open>!!selected.value\<close> reads;
  \<^item> \<open>vmodel\<close> says that the parent passes both \<open>modelValue\<close> and its
    \<open>onUpdate:modelValue\<close> listener. Then an assignment to the ref of \<open>defineModel\<close>
    only emits \<open>update:modelValue\<close>, and the ref keeps reading the old value until the
    parent has rendered again; without the listener the assignment is local and is read
    back at once.
\<close>

record 'v props =
  options :: "'v opt list"
  displayedOptions :: "'v opt list option"
  isDisabled :: bool
  isGrouped :: bool
  isSearchable :: bool
  isMulti :: bool
  shouldAutofocusOption :: bool
  closeOnSelect :: bool
  filterBy :: "'v opt \<Rightarrow> string \<Rightarrow> string \<Rightarrow> bool"
  getOptionLabel :: "'v opt \<Rightarrow> string"
  getMultiValueLabel :: "'v opt \<Rightarrow> string"
  truthy :: "'v \<Rightarrow> bool"
  vmodel :: bool

text \<open>
  The payload of \<open>optionDeselected\<close> is declared \<open>GenericOption | null\<close>; the script can
  also pass \<open>undefined\<close> (an array read out of range).
\<close>

datatype 'v payload = Given "'v opt" | Null | Undefined

datatype 'v event =
  OptionSelected "'v opt"
| OptionDeselected "'v payload"
| Search string

text \<open>
  The refs of the component. \<open>selected\<close> is what \<open>selected.value\<close> reads; \<open>pending\<close> is
  the value last sent to the parent with \<open>update:modelValue\<close> and not yet passed back
  down: always \<open>None\<close> when \<open>vmodel\<close> is off, and \<open>None\<close> when a handler starts, the
  parent having rendered since the last one. \<open>emitted\<close> is the log of the events of
  \<open>defineEmits\<close>, oldest first.
\<close>

record 'v state =
  selected :: "'v model"
  pending :: "'v model option"
  search :: string
  menuOpen :: bool
  focusedOption :: int
  emitted :: "'v event list"

record keyboardEvent =
  key :: string
  code :: string

text \<open>
  A scalar used where the script casts \<open>selected.value as OptionValue[]\<close> is the
  configuration error the validator of \<open>defineModel\<close> reports. Calling \<open>push\<close>,
  \<open>filter\<close>, \<open>includes\<close> or \<open>length\<close> on \<open>undefined\<close> throws a \<open>TypeError\<close>, and the
  model stops there for every scalar (what JavaScript does with a scalar that is defined
  depends on its type: a string has an \<open>includes\<close> of its own). Every statement below
  about multi mode is about an array.
\<close>

datatype error = TypeError

definition asArray :: "'v model \<Rightarrow> error + 'v list" where
  "asArray m = (case m of Seq xs \<Rightarrow> Inr xs | Scalar _ \<Rightarrow> Inl TypeError)"

definition andThen :: "error + 'a \<Rightarrow> ('a \<Rightarrow> error + 'b) \<Rightarrow> error + 'b" where
  "andThen r f = (case r of Inl e \<Rightarrow> Inl e | Inr x \<Rightarrow> f x)"

definition isTrue :: "bool option \<Rightarrow> bool" where
  "isTrue b = (b = Some True)"

text \<open>
  \<open>emit\<close> appends to the log. \<open>assign\<close> is \<open>selected.value = m\<close>, the setter of the ref of
  \<open>defineModel\<close>: with \<open>vmodel\<close> the new value goes to the parent and the ref reads the old
  one for the rest of the handler; without it the ref reads the new value at once.
  \<open>modelValue\<close> is the value last written, which is what the parent of a \<open>v-model\<close> holds
  and what the ref reads after \<open>nextTick\<close>, when the parent has rendered again.
\<close>

definition emit :: "'v event \<Rightarrow> 'v state \<Rightarrow> 'v state" where
  "emit ev s = s\<lparr>emitted := emitted s @ [ev]\<rparr>"

definition assign :: "'v props \<Rightarrow> 'v model \<Rightarrow> 'v state \<Rightarrow> 'v state" where
  "assign p m s = (if vmodel p then s\<lparr>pending := Some m\<rparr> else s\<lparr>selected := m\<rparr>)"

definition modelValue :: "'v state \<Rightarrow> 'v model" where
  "modelValue s = (case pending s of Some m \<Rightarrow> m | None \<Rightarrow> selected s)"

definition nextTick :: "'v state \<Rightarrow> 'v state" where
  "nextTick s = s\<lparr>selected := modelValue s, pending := None\<rparr>"

subsection \<open>Array helpers of JavaScript\<close>

text \<open>\<open>findIndex\<close> and \<open>reduce\<close> pass the element and its index to the callback;
  \<open>findIndex\<close> returns \<open>-1\<close> when no element passes. \<open>at xs i\<close> is \<open>xs[i]\<close>, which is
  \<open>undefined\<close> outside the array.\<close>

fun findIndexFrom :: "('a \<Rightarrow> int \<Rightarrow> bool) \<Rightarrow> nat \<Rightarrow> 'a list \<Rightarrow> int" where
  "findIndexFrom P i [] = - 1"
| "findIndexFrom P i (x # xs) = (if P x (int i) then int i else findIndexFrom P (Suc i) xs)"

definition findIndex :: "('a \<Rightarrow> int \<Rightarrow> bool) \<Rightarrow> 'a list \<Rightarrow> int" where
  "findIndex P xs = findIndexFrom P 0 xs"

fun reduceFrom :: "('b \<Rightarrow> 'a \<Rightarrow> int \<Rightarrow> 'b) \<Rightarrow> 'b \<Rightarrow> nat \<Rightarrow> 'a list \<Rightarrow> 'b" where
  "reduceFrom f acc i [] = acc"
| "reduceFrom f acc i (x # xs) = reduceFrom f (f acc x (int i)) (Suc i) xs"

definition reduce :: "('b \<Rightarrow> 'a \<Rightarrow> int \<Rightarrow> 'b) \<Rightarrow> 'b \<Rightarrow> 'a list \<Rightarrow> 'b" where
  "reduce f acc xs = reduceFrom f acc 0 xs"

definition at :: "'a list \<Rightarrow> int \<Rightarrow> 'a option" where
  "at xs i = (if 0 \<le> i \<and> i < int (length xs) then Some (xs ! nat i) else None)"

text \<open>\<open>String.prototype.includes\<close>, and \<open>toLowerCase\<close> on the letters of ASCII (a
  \<open>string\<close> of the model is a list of bytes).\<close>

fun includesStr :: "string \<Rightarrow> string \<Rightarrow> bool" where
  "includesStr [] n = (n = [])"
| "includesStr (c # cs) n = (take (length n) (c # cs) = n \<or> includesStr cs n)"

definition toLowerCase :: "string \<Rightarrow> string" where
  "toLowerCase str =
     map (\<lambda>c. if 65 \<le> (of_char c :: nat) \<and> (of_char c :: nat) \<le> 90
              then char_of (of_char c + (32::nat)) else c) str"

text \<open>
  \<open>Object.groupBy\<close> builds an object with one property for each key, created when the
  key first occurs; \<open>Object.keys\<close> lists the keys that are array indices (canonical
  decimal numerals below \<open>2^32 - 1\<close>) first, ascending, and the others after them in
  creation order.
\<close>

definition addToGroup :: "string \<Rightarrow> 'a \<Rightarrow> (string \<times> 'a list) list \<Rightarrow> (string \<times> 'a list) list" where
  "addToGroup k x g =
     (if k \<in> fst ` set g
      then map (\<lambda>(k', xs). if k' = k then (k', xs @ [x]) else (k', xs)) g
      else g @ [(k, [x])])"

definition groupBy :: "('a \<Rightarrow> string) \<Rightarrow> 'a list \<Rightarrow> (string \<times> 'a list) list" where
  "groupBy f xs = foldl (\<lambda>g x. addToGroup (f x) x g) [] xs"

definition isDigit :: "char \<Rightarrow> bool" where
  "isDigit c = (48 \<le> (of_char c :: nat) \<and> (of_char c :: nat) \<le> 57)"

definition digitsValue :: "string \<Rightarrow> int" where
  "digitsValue k = foldl (\<lambda>n c. 10 * n + (of_char c - 48)) 0 k"

definition isArrayIndex :: "string \<Rightarrow> bool" where
  "isArrayIndex k =
     (k \<noteq> [] \<and> list_all isDigit k \<and> (length k = 1 \<or> hd k \<noteq> CHR ''0'')
      \<and> digitsValue k < 4294967295)"

definition objectKeys :: "(string \<times> 'a) list \<Rightarrow> string list" where
  "objectKeys g =
     (let ks = map fst g
      in sort_key digitsValue (filter isArrayIndex ks) @ filter (\<lambda>k. \<not> isArrayIndex k) ks)"

subsection \<open>Default props\<close>

text \<open>The defaults of \<open>withDefaults\<close>, lines 103 to 119, around the required
  \<open>options\<close>.\<close>

definition withDefaults :: "'v opt list \<Rightarrow> ('v \<Rightarrow> bool) \<Rightarrow> bool \<Rightarrow> 'v props" where
  "withDefaults os t b =
     \<lparr>options = os, displayedOptions = None, isDisabled = False, isGrouped = False,
      isSearchable = True, isMulti = False, shouldAutofocusOption = True,
      closeOnSelect = True,
      filterBy = (\<lambda>option lbl srch. includesStr (toLowerCase lbl) (toLowerCase srch)),
      getOptionLabel = label, getMultiValueLabel = label, truthy = t, vmodel = b\<rparr>"

section \<open>Computed properties\<close>

text \<open>
  Each definition of this section is the function a \<open>computed\<close> of the script wraps: its
  value when it is computed in the state \<open>s\<close>. Vue caches the value and computes it again
  only after one of the refs it read has triggered; the cache of \<open>availableOptions\<close> is
  modelled in the section on the cache below. The handlers read the lists as computed
  from the state they run in, which is what the cache holds as long as no write went
  untracked.
\<close>

text \<open>\<open>availableOptions\<close>, lines 145 to 164. \<open>filter\<close> on an empty array never calls
  its callback, so the cast is only reached when there is an option to test.\<close>

definition filterMultiSelectedValues :: "'v model \<Rightarrow> 'v opt list \<Rightarrow> error + 'v opt list" where
  "filterMultiSelectedValues m os =
     (if os = [] then Inr []
      else andThen (asArray m) (\<lambda>xs. Inr (filter (\<lambda>option. val option \<notin> set xs) os)))"

definition availableOptions :: "'v props \<Rightarrow> 'v state \<Rightarrow> error + 'v opt list" where
  "availableOptions p s =
     (let opts = (case displayedOptions p of Some d \<Rightarrow> d | None \<Rightarrow> options p)
      in if isSearchable p \<and> search s \<noteq> [] then
           (let matchingOptions =
                  filter (\<lambda>option.
                      filterBy p option
                        (if isMulti p then getMultiValueLabel p option else getOptionLabel p option)
                        (search s)) opts
            in if isMulti p then filterMultiSelectedValues (selected s) matchingOptions
               else Inr matchingOptions)
         else if isMulti p then filterMultiSelectedValues (selected s) opts else Inr opts)"

text \<open>\<open>isGroupingEnabled\<close>, line 168; \<open>!!o.groupName\<close> is false for a missing and for an
  empty group name.\<close>

definition hasGroupName :: "'v opt \<Rightarrow> bool" where
  "hasGroupName option = (case groupName option of Some g \<Rightarrow> g \<noteq> [] | None \<Rightarrow> False)"

definition groupKey :: "'v opt \<Rightarrow> string" where
  "groupKey option =
     (case groupName option of Some g \<Rightarrow> (if g \<noteq> [] then g else ''default'') | None \<Rightarrow> ''default'')"

definition isGroupingEnabled :: "'v props \<Rightarrow> 'v state \<Rightarrow> error + bool" where
  "isGroupingEnabled p s =
     (if isGrouped p then andThen (availableOptions p s) (\<lambda>avail. Inr (list_ex hasGroupName avail))
      else Inr False)"

text \<open>\<open>availableOptionsGrouped\<close>, lines 170 to 178, as pairs of \<open>groupName\<close> and
  \<open>options\<close>.\<close>

definition availableOptionsGrouped :: "'v props \<Rightarrow> 'v state \<Rightarrow> error + (string \<times> 'v opt list) list" where
  "availableOptionsGrouped p s =
     andThen (isGroupingEnabled p s) (\<lambda>enabled.
     andThen (availableOptions p s) (\<lambda>avail.
       if \<not> enabled then Inr [(''default'', avail)]
       else
         (let grouped =
                groupBy groupKey avail
          in Inr (map (\<lambda>g. (g, case map_of grouped g of Some os \<Rightarrow> os | None \<Rightarrow> []))
                   (objectKeys grouped)))))"

text \<open>\<open>availableOptionsGroupedFlat\<close>, lines 180 to 186.\<close>

definition availableOptionsGroupedFlat :: "'v props \<Rightarrow> 'v state \<Rightarrow> error + 'v opt list" where
  "availableOptionsGroupedFlat p s =
     andThen (availableOptionsGrouped p s) (\<lambda>groups.
       Inr (foldl (\<lambda>flat grouped. flat @ snd grouped) [] groups))"

text \<open>\<open>selectedOptions\<close>, lines 190 to 204. In multi mode \<open>find\<close> may return
  \<open>undefined\<close> for a value no option carries (the \<open>!\<close> is a type assertion only), so the
  entries are optional. The \<open>console.warn\<close> changes no state.\<close>

definition selectedOptions :: "'v props \<Rightarrow> 'v state \<Rightarrow> 'v opt option list" where
  "selectedOptions p s =
     (case (isMulti p, selected s) of
        (True, Seq xs) \<Rightarrow> map (\<lambda>v. find (\<lambda>option. val option = v) (options p)) xs
      | _ \<Rightarrow>
          (case find (\<lambda>option. selected s = Scalar (Some (val option))) (options p) of
             Some found \<Rightarrow> [Some found]
           | None \<Rightarrow> []))"

section \<open>Operations\<close>

text \<open>\<open>openMenu\<close>, lines 206 to 216, \<open>closeMenu\<close> and \<open>toggleMenu\<close>. Moving the
  input focus of the browser (\<open>input.value.focus()\<close>, \<open>blur()\<close>) and
  \<open>preventDefault\<close> touch no ref and are left out throughout.\<close>

definition openMenu :: "'v props \<Rightarrow> 'v state \<Rightarrow> 'v state" where
  "openMenu p s =
     (let s1 = s\<lparr>menuOpen := True\<rparr>
      in if shouldAutofocusOption p
         then s1\<lparr>focusedOption := findIndex (\<lambda>option i. \<not> isTrue (disabled option)) (options p)\<rparr>
         else s1)"

definition closeMenu :: "'v state \<Rightarrow> 'v state" where
  "closeMenu s = s\<lparr>menuOpen := False, search := []\<rparr>"

definition toggleMenu :: "'v props \<Rightarrow> 'v state \<Rightarrow> 'v state" where
  "toggleMenu p s = (if menuOpen s then closeMenu s else openMenu p s)"

text \<open>\<open>setOption\<close>, lines 232 to 255. \<open>push\<close> changes the array in place: no assignment
  to the ref, and the change is read back at once.\<close>

definition push :: "'v \<Rightarrow> 'v state \<Rightarrow> error + 'v state" where
  "push v s = andThen (asArray (selected s)) (\<lambda>xs. Inr (s\<lparr>selected := Seq (xs @ [v])\<rparr>))"

definition setOption :: "'v props \<Rightarrow> 'v opt \<Rightarrow> 'v state \<Rightarrow> error + 'v state" where
  "setOption p option s =
     (if isTrue (disabled option) then Inr s
      else
        andThen (if isMulti p then push (val option) s
                 else Inr (assign p (Scalar (Some (val option))) s)) (\<lambda>s1.
          (let s2 = emit (OptionSelected option) s1;
               s3 = s2\<lparr>search := []\<rparr>
           in Inr (if closeOnSelect p then s3\<lparr>menuOpen := False\<rparr> else s3))))"

text \<open>\<open>removeOption\<close>, lines 257 to 262.\<close>

definition removeOption :: "'v props \<Rightarrow> 'v opt \<Rightarrow> 'v state \<Rightarrow> error + 'v state" where
  "removeOption p option s =
     (if isMulti p \<and> \<not> isDisabled p then
        andThen (asArray (selected s)) (\<lambda>xs.
          Inr (emit (OptionDeselected (Given option))
                 (assign p (Seq (filter (\<lambda>v. v \<noteq> val option) xs)) s)))
      else Inr s)"

text \<open>\<open>clear\<close>, lines 264 to 280. In single mode \<open>selectedOptions.value[0]\<close> is read
  after the assignment to \<open>selected.value\<close>.\<close>

definition first :: "'v opt option list \<Rightarrow> 'v payload" where
  "first xs = (case at xs 0 of Some (Some option) \<Rightarrow> Given option | _ \<Rightarrow> Undefined)"

definition clear :: "'v props \<Rightarrow> 'v state \<Rightarrow> 'v state" where
  "clear p s =
     (let s1 =
            (if isMulti p then emit (OptionDeselected Null) (assign p (Seq []) s)
             else
               (let s' = assign p (Scalar None) s
                in emit (OptionDeselected (first (selectedOptions p s'))) s'))
      in s1\<lparr>menuOpen := False, search := []\<rparr>)"

section \<open>Keyboard navigation\<close>

text \<open>The blocks of \<open>handleNavigation\<close>, lines 282 to 352. \<open>currentIndex\<close> is read once,
  before the blocks; each block reads the flat list as computed from the state the block
  runs in.\<close>

definition arrowDownIndex :: "int \<Rightarrow> 'v opt list \<Rightarrow> int" where
  "arrowDownIndex currentIndex flat =
     (let nextOptionIndex =
            findIndex (\<lambda>option i. \<not> isTrue (disabled option) \<and> i > currentIndex) flat;
          firstOptionIndex = findIndex (\<lambda>option i. \<not> isTrue (disabled option)) flat
      in if nextOptionIndex = - 1 then firstOptionIndex else nextOptionIndex)"

definition arrowDown :: "'v props \<Rightarrow> int \<Rightarrow> 'v state \<Rightarrow> error + 'v state" where
  "arrowDown p currentIndex s =
     andThen (availableOptionsGroupedFlat p s) (\<lambda>flat.
       Inr (s\<lparr>focusedOption := arrowDownIndex currentIndex flat\<rparr>))"

definition arrowUpIndex :: "int \<Rightarrow> 'v opt list \<Rightarrow> int" where
  "arrowUpIndex currentIndex flat =
     (let prevOptionIndex =
            reduce (\<lambda>acc option i. if \<not> isTrue (disabled option) \<and> i < currentIndex then i else acc)
              (- 1) flat;
          lastOptionIndex =
            reduce (\<lambda>acc option i. if \<not> isTrue (disabled option) then i else acc) (- 1) flat
      in if prevOptionIndex = - 1 then lastOptionIndex else prevOptionIndex)"

definition arrowUp :: "'v props \<Rightarrow> int \<Rightarrow> 'v state \<Rightarrow> error + 'v state" where
  "arrowUp p currentIndex s =
     andThen (availableOptionsGroupedFlat p s) (\<lambda>flat.
       Inr (s\<lparr>focusedOption := arrowUpIndex currentIndex flat\<rparr>))"

definition selectFocused :: "'v props \<Rightarrow> int \<Rightarrow> 'v state \<Rightarrow> error + 'v state" where
  "selectFocused p currentIndex s =
     andThen (availableOptionsGroupedFlat p s) (\<lambda>flat.
       case at flat currentIndex of
         Some selectedOption \<Rightarrow> setOption p selectedOption s
       | None \<Rightarrow> Inr s)"

definition hasSelectedValue :: "'v props \<Rightarrow> 'v state \<Rightarrow> error + bool" where
  "hasSelectedValue p s =
     (if isMulti p then andThen (asArray (selected s)) (\<lambda>xs. Inr (length xs > 0))
      else Inr (case selected s of
                  Scalar None \<Rightarrow> False
                | Scalar (Some v) \<Rightarrow> truthy p v
                | Seq xs \<Rightarrow> True))"

definition handleNavigation :: "'v props \<Rightarrow> keyboardEvent \<Rightarrow> 'v state \<Rightarrow> error + 'v state" where
  "handleNavigation p e s =
     (if menuOpen s then
        (let currentIndex = focusedOption s in
         andThen (if key e = ''ArrowDown'' then arrowDown p currentIndex s else Inr s) (\<lambda>s1.
         andThen (if key e = ''ArrowUp'' then arrowUp p currentIndex s1 else Inr s1) (\<lambda>s2.
         andThen (if key e = ''Enter'' then selectFocused p currentIndex s2 else Inr s2) (\<lambda>s3.
         andThen (if code e = ''Space'' \<and> length (search s3) = 0
                  then selectFocused p currentIndex s3 else Inr s3) (\<lambda>s4.
         (let s5 = (if key e = ''Escape'' then s4\<lparr>menuOpen := False, search := []\<rparr> else s4) in
          andThen (hasSelectedValue p s5) (\<lambda>hasValue.
            if key e = ''Backspace'' \<and> length (search s5) = 0 \<and> hasValue then
              (if isMulti p
               then andThen (asArray (selected s5)) (\<lambda>xs. Inr (assign p (Seq (butlast xs)) s5))
               else Inr (assign p (Scalar None) s5))
            else Inr s5)))))))
      else Inr s)"

section \<open>Other handlers\<close>

definition handleInputSpace :: "'v props \<Rightarrow> 'v state \<Rightarrow> 'v state" where
  "handleInputSpace p s = (if \<not> menuOpen s \<and> length (search s) = 0 then openMenu p s else s)"

definition handleInputKeydown :: "'v props \<Rightarrow> keyboardEvent \<Rightarrow> 'v state \<Rightarrow> 'v state" where
  "handleInputKeydown p e s =
     (if key e = ''Tab'' then closeMenu s
      else if key e = ''Space'' then handleInputSpace p s
      else s)"

text \<open>\<open>handleClickOutside\<close>; \<open>outside\<close> says that the container exists and does not
  contain the target of the click.\<close>

definition handleClickOutside :: "bool \<Rightarrow> 'v state \<Rightarrow> 'v state" where
  "handleClickOutside outside s = (if outside then s\<lparr>menuOpen := False, search := []\<rparr> else s)"

text \<open>The watcher on \<open>search\<close>, lines 399 to 409, and typing into the input, whose
  \<open>v-model\<close> writes \<open>search\<close> and so runs the watcher when the text has changed. The
  handlers above write \<open>search\<close> only to empty it; the watcher that runs after them
  emits \<open>search\<close> with the empty text and opens nothing.\<close>

definition searchWatcher :: "'v props \<Rightarrow> 'v state \<Rightarrow> 'v state" where
  "searchWatcher p s =
     (let s1 = emit (Search (search s)) s
      in if search s1 \<noteq> [] \<and> \<not> menuOpen s1 then openMenu p s1 else s1)"

definition typeSearch :: "'v props \<Rightarrow> string \<Rightarrow> 'v state \<Rightarrow> 'v state" where
  "typeSearch p str s = (if str = search s then s else searchWatcher p (s\<lparr>search := str\<rparr>))"

text \<open>The refs as the script initialises them, lines 141 to 143, around the model
  value the parent passes.\<close>

definition mounted :: "'v model \<Rightarrow> 'v state" where
  "mounted m =
     \<lparr>selected = m, pending = None, search = [], menuOpen = False, focusedOption = - 1,
      emitted = []\<rparr>"

section \<open>The cache of \<open>availableOptions\<close>\<close>

text \<open>
  \<open>availableOptions\<close> is a \<open>computed\<close>: Vue keeps its last value and computes it again,
  at the next read, only when a ref that the last computation read has triggered since.
  The last computation read \<open>search.value\<close> when \<open>isSearchable\<close> is on, and
  \<open>selected.value\<close> when \<open>isMulti\<close> is on and there was an option to test (the callback
  of \<open>filter\<close> ran). An assignment to \<open>search.value\<close> triggers when it changes the text,
  and a local assignment to \<open>selected.value\<close> triggers. \<open>push\<close> changes the array in
  place and assigns nothing: it triggers only when the array is a reactive proxy, as the
  array a parent keeps in a \<open>ref\<close> is. The array that \<open>filter\<close>, \<open>slice\<close> or \<open>[]\<close>
  produces is a plain one, and a local assignment stores it as it is.

  \<open>refs\<close> are the refs of the component, \<open>plainArray\<close> says that \<open>selected.value\<close> holds a
  plain array, \<open>cachedAvailableOptions\<close> is the cached value, \<open>readsSelected\<close> says that
  the computation that produced it read \<open>selected.value\<close>, and \<open>dirty\<close> that a ref it read
  has triggered since. The definitions follow one handler at a time on a model that is
  written locally; with \<open>v-model\<close> the new value comes back from the parent at its next
  render, which they do not follow.
\<close>

record 'v rendered =
  refs :: "'v state"
  plainArray :: bool
  cachedAvailableOptions :: "error + 'v opt list"
  readsSelected :: bool
  dirty :: bool

text \<open>The list \<open>availableOptions\<close> returns in single mode and hands to
  \<open>filterMultiSelectedValues\<close> in multi mode.\<close>

definition candidates :: "'v props \<Rightarrow> 'v state \<Rightarrow> 'v opt list" where
  "candidates p s =
     (let opts = (case displayedOptions p of Some d \<Rightarrow> d | None \<Rightarrow> options p)
      in if isSearchable p \<and> search s \<noteq> [] then
           filter (\<lambda>option.
               filterBy p option
                 (if isMulti p then getMultiValueLabel p option else getOptionLabel p option)
                 (search s)) opts
         else opts)"

text \<open>The component before anything has read \<open>availableOptions\<close>.\<close>

definition unread :: "bool \<Rightarrow> 'v state \<Rightarrow> 'v rendered" where
  "unread plain s =
     \<lparr>refs = s, plainArray = plain, cachedAvailableOptions = Inr [], readsSelected = False,
      dirty = True\<rparr>"

text \<open>A read of \<open>availableOptions.value\<close>, as the template makes when it renders the
  open menu: the value is computed again when the cache is dirty, and is the cached one
  otherwise.\<close>

definition readAvailableOptions :: "'v props \<Rightarrow> 'v rendered \<Rightarrow> 'v rendered" where
  "readAvailableOptions p v =
     (if dirty v
      then v\<lparr>cachedAvailableOptions := availableOptions p (refs v),
             readsSelected := (isMulti p \<and> candidates p (refs v) \<noteq> []),
             dirty := False\<rparr>
      else v)"

text \<open>\<open>removeOption\<close> and \<open>setOption\<close> with their effect on the cache. The assignment
  of \<open>removeOption\<close>, when it is local, triggers and leaves a plain array in the ref. The
  \<open>push\<close> of \<open>setOption\<close> triggers only on a reactive array; its assignment to
  \<open>search.value\<close> triggers when the text was not empty.\<close>

definition removeOptionRendered :: "'v props \<Rightarrow> 'v opt \<Rightarrow> 'v rendered \<Rightarrow> error + 'v rendered" where
  "removeOptionRendered p option v =
     andThen (removeOption p option (refs v)) (\<lambda>s'.
       Inr (if isMulti p \<and> \<not> isDisabled p \<and> \<not> vmodel p
            then v\<lparr>refs := s', plainArray := True, dirty := (dirty v \<or> readsSelected v)\<rparr>
            else v\<lparr>refs := s'\<rparr>))"

definition setOptionRendered :: "'v props \<Rightarrow> 'v opt \<Rightarrow> 'v rendered \<Rightarrow> error + 'v rendered" where
  "setOptionRendered p option v =
     andThen (setOption p option (refs v)) (\<lambda>s'.
       Inr (if isTrue (disabled option) then v
            else v\<lparr>refs := s',
                   dirty := (dirty v
                     \<or> (isMulti p \<and> readsSelected v \<and> \<not> plainArray v)
                     \<or> (isSearchable p \<and> search (refs v) \<noteq> []))\<rparr>))"

text \<open>The shape of the model value fits the mode when \<open>isMulti\<close> comes with an
  array, which is what the validator of \<open>defineModel\<close> asks for.\<close>

definition shaped :: "'v props \<Rightarrow> 'v state \<Rightarrow> bool" where
  "shaped p s = (if isMulti p then (case selected s of Seq xs \<Rightarrow> True | Scalar x \<Rightarrow> False) else True)"

section \<open>Example data\<close>

text \<open>Options with numbers as values, for the concrete runs below; a number is truthy
  unless it is \<open>0\<close>.\<close>

definition truthyNumber :: "int \<Rightarrow> bool" where
  "truthyNumber n = (n \<noteq> 0)"

definition optionA :: "int opt" where
  "optionA = \<lparr>val = 1, label = ''A'', groupName = None, disabled = None\<rparr>"

definition optionB :: "int opt" where
  "optionB = \<lparr>val = 2, label = ''B'', groupName = None, disabled = None\<rparr>"

definition optionC :: "int opt" where
  "optionC = \<lparr>val = 3, label = ''C'', groupName = None, disabled = None\<rparr>"

definition optionD :: "int opt" where
  "optionD = \<lparr>val = 4, label = ''D'', groupName = None, disabled = None\<rparr>"

definition singleProps :: "int props" where
  "singleProps = withDefaults [optionA, optionB, optionC] truthyNumber False"

definition multiProps :: "int props" where
  "multiProps = (withDefaults [optionA, optionB, optionC, optionD] truthyNumber False)\<lparr>isMulti := True\<rparr>"

definition optionX :: "int opt" where
  "optionX = \<lparr>val = 5, label = ''X'', groupName = None, disabled = Some True\<rparr>"

definition navProps :: "int props" where
  "navProps = withDefaults [optionA, optionX, optionC] truthyNumber False"

definition arrowDownKey :: keyboardEvent where
  "arrowDownKey = \<lparr>key = ''ArrowDown'', code = ''ArrowDown''\<rparr>"

definition arrowUpKey :: keyboardEvent where
  "arrowUpKey = \<lparr>key = ''ArrowUp'', code = ''ArrowUp''\<rparr>"

definition enterKey :: keyboardEvent where
  "enterKey = \<lparr>key = ''Enter'', code = ''Enter''\<rparr>"

definition spaceKey :: keyboardEvent where
  "spaceKey = \<lparr>key = '' '', code = ''Space''\<rparr>"

definition backspaceKey :: keyboardEvent where
  "backspaceKey = \<lparr>key = ''Backspace'', code = ''Backspace''\<rparr>"

definition navState :: "int state" where
  "navState = (mounted (Scalar None))\<lparr>menuOpen := True, focusedOption := 0\<rparr>"

definition optionZero :: "int opt" where
  "optionZero = \<lparr>val = 0, label = ''Zero'', groupName = None, disabled = None\<rparr>"

definition zeroProps :: "int props" where
  "zeroProps = withDefaults [optionZero, optionA] truthyNumber False"

definition zeroSelected :: "int state" where
  "zeroSelected = (mounted (Scalar (Some 0)))\<lparr>menuOpen := True\<rparr>"

definition selectedB :: "int state" where
  "selectedB = (mounted (Scalar (Some 2)))\<lparr>menuOpen := True\<rparr>"

definition stayOpenProps :: "int props" where
  "stayOpenProps = multiProps\<lparr>closeOnSelect := False\<rparr>"

definition focusLast :: "int state" where
  "focusLast = (mounted (Seq []))\<lparr>menuOpen := True, focusedOption := 3\<rparr>"

text \<open>A multi select whose model is written locally, with the menu open and \<open>[1, 3]\<close>
  selected; the states after the tag of \<open>C\<close> was removed, after the menu was rendered
  again, and after \<open>B\<close> was picked from it.\<close>

definition openWithAC :: "int rendered" where
  "openWithAC = unread False ((mounted (Seq [1, 3]))\<lparr>menuOpen := True\<rparr>)"

definition afterRemoveC :: "int rendered" where
  "afterRemoveC =
     \<lparr>refs = \<lparr>selected = Seq [1], pending = None, search = [], menuOpen = True,
               focusedOption = - 1, emitted = [OptionDeselected (Given optionC)]\<rparr>,
      plainArray = True, cachedAvailableOptions = Inr [optionB, optionD], readsSelected = True,
      dirty = True\<rparr>"

definition menuAfterRemoveC :: "int rendered" where
  "menuAfterRemoveC =
     afterRemoveC\<lparr>cachedAvailableOptions := Inr [optionB, optionC, optionD], dirty := False\<rparr>"

definition afterPickB :: "int rendered" where
  "afterPickB =
     menuAfterRemoveC
       \<lparr>refs := \<lparr>selected = Seq [1, 2], pending = None, search = [], menuOpen = True,
                  focusedOption = - 1,
                  emitted = [OptionDeselected (Given optionC), OptionSelected optionB]\<rparr>\<rparr>"

section \<open>Basic facts\<close>

lemmas example_defs =
  truthyNumber_def optionA_def optionB_def optionC_def optionD_def singleProps_def
  multiProps_def withDefaults_def mounted_def

lemmas key_defs = arrowDownKey_def arrowUpKey_def enterKey_def spaceKey_def backspaceKey_def

lemmas run_defs =
  handleNavigation_def arrowDown_def arrowUp_def arrowDownIndex_def arrowUpIndex_def
  selectFocused_def hasSelectedValue_def setOption_def push_def assign_def emit_def
  findIndex_def reduce_def at_def isTrue_def shaped_def modelValue_def

lemmas flat_defs =
  availableOptionsGroupedFlat_def availableOptionsGrouped_def isGroupingEnabled_def
  availableOptions_def filterMultiSelectedValues_def

lemma andThen_Inr [simp]: "andThen (Inr x) f = f x"
  by (simp add: andThen_def)

lemma andThen_Inl [simp]: "andThen (Inl e) f = Inl e"
  by (simp add: andThen_def)

lemma asArray_Seq [simp]: "asArray (Seq xs) = Inr xs"
  by (simp add: asArray_def)

lemma asArray_Scalar [simp]: "asArray (Scalar x) = Inl TypeError"
  by (simp add: asArray_def)

lemma nextTick_selected: "selected (nextTick s) = modelValue s"
  by (simp add: nextTick_def)

lemma find_never [simp]: "find (\<lambda>x. False) xs = None"
  by (induction xs) auto

lemma foldl_flat: "foldl (\<lambda>flat grouped. flat @ snd grouped) acc groups = acc @ concat (map snd groups)"
  by (induction groups arbitrary: acc) auto

lemma map_fst_extend:
  "map fst (map (\<lambda>(k', xs). if k' = k then (k', xs @ [x]) else (k', xs)) g) = map fst g"
  by (induction g) auto

lemma addToGroup_keys:
  "distinct (map fst g) \<Longrightarrow> distinct (map fst (addToGroup k x g))"
  unfolding addToGroup_def by (simp add: map_fst_extend del: map_map)

lemma addToGroup_members:
  "(\<Union>e \<in> set (addToGroup k x g). set (snd e)) = insert x (\<Union>e \<in> set g. set (snd e))"
  by (induction g) (auto simp: addToGroup_def image_iff split: if_splits)

lemma foldl_addToGroup_keys:
  "distinct (map fst g) \<Longrightarrow> distinct (map fst (foldl (\<lambda>g x. addToGroup (f x) x g) g xs))"
  by (induction xs arbitrary: g) (auto simp: addToGroup_keys)

lemma foldl_addToGroup_members:
  "(\<Union>e \<in> set (foldl (\<lambda>g x. addToGroup (f x) x g) g xs). set (snd e)) = (\<Union>e \<in> set g. set (snd e)) \<union> set xs"
  by (induction xs arbitrary: g) (auto simp: addToGroup_members)

lemma groupBy_keys: "distinct (map fst (groupBy f xs))"
  by (simp add: groupBy_def foldl_addToGroup_keys)

lemma groupBy_members: "(\<Union>e \<in> set (groupBy f xs). set (snd e)) = set xs"
  by (simp add: groupBy_def foldl_addToGroup_members)

lemma set_objectKeys: "set (objectKeys g) = fst ` set g"
  by (auto simp: objectKeys_def Let_def)

lemma regrouped_members:
  assumes "distinct (map fst g)"
  shows "set (concat (map snd (map (\<lambda>k. (k, case map_of g k of Some os \<Rightarrow> os | None \<Rightarrow> [])) (objectKeys g))))
         = (\<Union>e \<in> set g. set (snd e))"
proof -
  have "\<And>k v. (k, v) \<in> set g \<Longrightarrow> map_of g k = Some v"
    using assms by simp
  then show ?thesis
    by (auto simp: set_objectKeys split: option.splits)
qed

lemma grouped_cases:
  assumes "availableOptions p s = Inr avail"
  shows "availableOptionsGrouped p s =
     Inr (if isGrouped p \<and> list_ex hasGroupName avail
          then map (\<lambda>g. (g, case map_of (groupBy groupKey avail) g of Some os \<Rightarrow> os | None \<Rightarrow> []))
                 (objectKeys (groupBy groupKey avail))
          else [(''default'', avail)])"
  by (simp add: availableOptionsGrouped_def isGroupingEnabled_def assms Let_def)

lemma flat_members:
  assumes "availableOptions p s = Inr avail"
  shows "\<exists>flat. availableOptionsGroupedFlat p s = Inr flat \<and> set flat = set avail"
proof (cases "isGrouped p \<and> list_ex hasGroupName avail")
  case True
  have "availableOptionsGrouped p s =
     Inr (map (\<lambda>g. (g, case map_of (groupBy groupKey avail) g of Some os \<Rightarrow> os | None \<Rightarrow> []))
                 (objectKeys (groupBy groupKey avail)))"
    by (simp only: grouped_cases [OF assms] if_P [OF True])
  then show ?thesis
    using regrouped_members [OF groupBy_keys, of groupKey avail]
    by (simp add: availableOptionsGroupedFlat_def foldl_flat groupBy_members del: map_map)
next
  case False
  have "availableOptionsGrouped p s = Inr [(''default'', avail)]"
    by (simp only: grouped_cases [OF assms] if_not_P [OF False])
  then show ?thesis
    by (simp add: availableOptionsGroupedFlat_def)
qed

lemma filterMultiSelectedValues_Seq:
  "filterMultiSelectedValues (Seq xs) os = Inr (filter (\<lambda>option. val option \<notin> set xs) os)"
  by (simp add: filterMultiSelectedValues_def)

lemma availableOptions_multi:
  assumes "isMulti p" "selected s = Seq xs"
  shows "\<exists>avail. availableOptions p s = Inr avail \<and> val ` set avail \<inter> set xs = {}"
  using assms by (auto simp: availableOptions_def filterMultiSelectedValues_Seq Let_def)

section \<open>The visible options and the selection\<close>

text \<open>
  Whenever \<open>availableOptions\<close> is computed in multi mode, it returns, and no value of the
  selection sequence is the value of an option in it, nor of one in the flattened list.
\<close>

lemma computed_disjoint_from_selection:
  assumes "isMulti p" "selected s = Seq xs"
  shows "\<exists>avail flat. availableOptions p s = Inr avail
           \<and> availableOptionsGroupedFlat p s = Inr flat
           \<and> val ` set avail \<inter> set xs = {} \<and> val ` set flat \<inter> set xs = {}"
proof -
  obtain avail where a: "availableOptions p s = Inr avail" "val ` set avail \<inter> set xs = {}"
    using availableOptions_multi [OF assms] by blast
  obtain flat where f: "availableOptionsGroupedFlat p s = Inr flat" "set flat = set avail"
    using flat_members [OF a(1)] by blast
  show ?thesis using a f by simp
qed

lemma computed_disjoint_from_selection_example:
  "isMulti multiProps \<and> selected (mounted (Seq [1, 3 :: int])) = Seq [1, 3]
   \<and> availableOptions multiProps (mounted (Seq [1, 3])) = Inr [optionB, optionD]
   \<and> (\<exists>avail flat. availableOptions multiProps (mounted (Seq [1, 3])) = Inr avail
           \<and> availableOptionsGroupedFlat multiProps (mounted (Seq [1, 3])) = Inr flat
           \<and> val ` set avail \<inter> set [1, 3] = {} \<and> val ` set flat \<inter> set [1, 3] = {})"
proof -
  have h1: "isMulti multiProps" by (simp add: example_defs)
  have h2: "selected (mounted (Seq [1, 3 :: int])) = Seq [1, 3]" by (simp add: example_defs)
  have h3: "availableOptions multiProps (mounted (Seq [1, 3])) = Inr [optionB, optionD]"
    by (simp add: availableOptions_def filterMultiSelectedValues_Seq example_defs)
  show ?thesis using h1 h2 h3 computed_disjoint_from_selection [OF h1 h2] by simp
qed

lemma availableOptions_candidates:
  "availableOptions p s =
     (if isMulti p then filterMultiSelectedValues (selected s) (candidates p s)
      else Inr (candidates p s))"
  by (simp add: availableOptions_def candidates_def Let_def)

text \<open>
  Claim C5. In multi mode no option whose value is in the selection sequence should be
  among the visible options. The list the component shows is the cached value of
  \<open>availableOptions\<close>, and \<open>setOption\<close> selects with a \<open>push\<close> that a plain array does not
  report. With a model that is written locally, the menu open and \<open>[1, 3]\<close> selected,
  removing \<open>C\<close> stores the plain array \<open>[1]\<close> and the menu shows \<open>[B, C, D]\<close>. Picking
  \<open>B\<close> makes the selection \<open>[1, 2]\<close>; no ref triggers, and the list read after it is
  still \<open>[B, C, D]\<close>: \<open>B\<close> is selected and visible. Computed from that state the list
  would be \<open>[C, D]\<close>.
\<close>

theorem pushed_value_stays_visible:
  "isMulti stayOpenProps \<and> \<not> vmodel stayOpenProps
   \<and> removeOptionRendered stayOpenProps optionC (readAvailableOptions stayOpenProps openWithAC)
       = Inr afterRemoveC
   \<and> readAvailableOptions stayOpenProps afterRemoveC = menuAfterRemoveC
   \<and> setOptionRendered stayOpenProps optionB menuAfterRemoveC = Inr afterPickB
   \<and> readAvailableOptions stayOpenProps afterPickB = afterPickB
   \<and> menuOpen (refs afterPickB)
   \<and> selected (refs afterPickB) = Seq [1, 2]
   \<and> cachedAvailableOptions afterPickB = Inr [optionB, optionC, optionD]
   \<and> val optionB = 2
   \<and> availableOptions stayOpenProps (refs afterPickB) = Inr [optionC, optionD]"
  by (simp add: readAvailableOptions_def removeOptionRendered_def setOptionRendered_def
      unread_def candidates_def openWithAC_def afterRemoveC_def menuAfterRemoveC_def
      afterPickB_def removeOption_def stayOpenProps_def run_defs flat_defs example_defs)

section \<open>Deselecting\<close>

lemma filter_neq_removeAll: "filter (\<lambda>v. v \<noteq> a) xs = removeAll a xs"
  by (induction xs) auto

text \<open>
  Claim C1, as amended. In multi mode \<open>removeOption\<close> writes the selection sequence
  without any occurrence of \<open>option.value\<close> (\<open>filter\<close> drops later duplicates too) and emits
  \<open>optionDeselected\<close> with the option; when the control is disabled it changes nothing.
\<close>

theorem removeOption_removes_every_occurrence:
  assumes "isMulti p" "selected s = Seq xs" "pending s = None"
  shows "(isDisabled p \<longrightarrow> removeOption p option s = Inr s)
       \<and> (\<not> isDisabled p \<longrightarrow>
            (\<exists>s'. removeOption p option s = Inr s'
               \<and> modelValue s' = Seq (removeAll (val option) xs)
               \<and> emitted s' = emitted s @ [OptionDeselected (Given option)]))"
  using assms
  by (simp add: removeOption_def assign_def emit_def modelValue_def filter_neq_removeAll)

theorem removeOption_removes_every_occurrence_witness:
  "isMulti multiProps \<and> isMulti (multiProps\<lparr>isDisabled := True\<rparr>)
   \<and> selected (mounted (Seq [1, 2, 1 :: int])) = Seq [1, 2, 1]
   \<and> pending (mounted (Seq [1, 2, 1 :: int])) = None
   \<and> isDisabled (multiProps\<lparr>isDisabled := True\<rparr>) \<and> \<not> isDisabled multiProps
   \<and> removeOption (multiProps\<lparr>isDisabled := True\<rparr>) optionA (mounted (Seq [1, 2, 1]))
       = Inr (mounted (Seq [1, 2, 1]))
   \<and> (\<exists>s'. removeOption multiProps optionA (mounted (Seq [1, 2, 1])) = Inr s'
         \<and> modelValue s' = Seq (removeAll (val optionA) [1, 2, 1])
         \<and> emitted s' = emitted (mounted (Seq [1, 2, 1])) @ [OptionDeselected (Given optionA)])"
proof -
  have h1: "isMulti multiProps" "isMulti (multiProps\<lparr>isDisabled := True\<rparr>)"
    by (simp_all add: example_defs)
  have h2: "selected (mounted (Seq [1, 2, 1 :: int])) = Seq [1, 2, 1]"
    by (simp add: example_defs)
  have h3: "isDisabled (multiProps\<lparr>isDisabled := True\<rparr>)" "\<not> isDisabled multiProps"
    by (simp_all add: example_defs)
  have h4: "pending (mounted (Seq [1, 2, 1 :: int])) = None"
    by (simp add: example_defs)
  show ?thesis
    using h1 h2 h3 h4
      removeOption_removes_every_occurrence [OF h1(1) h2 h4, of optionA]
      removeOption_removes_every_occurrence [OF h1(2) h2 h4, of optionA]
    by simp
qed

text \<open>
  The claim as written says that only the first occurrence goes. On the sequence
  \<open>[1, 2, 1]\<close>, deselecting the option of value \<open>1\<close> leaves \<open>[2]\<close>, where removing the
  first occurrence would leave \<open>[2, 1]\<close>.
\<close>

theorem removeOption_first_occurrence_counterexample:
  "removeOption multiProps optionA (mounted (Seq [1, 2, 1]))
     = Inr ((mounted (Seq [2]))\<lparr>emitted := [OptionDeselected (Given optionA)]\<rparr>)
   \<and> Seq [2] \<noteq> Seq (remove1 (val optionA) [1, 2, 1])"
  by (simp add: removeOption_def assign_def emit_def example_defs)

text \<open>
  Claim C10. In multi mode, with the control enabled, \<open>removeOption\<close> emits
  \<open>optionDeselected\<close> with the given option also when its value is nowhere in the
  selection sequence, and the sequence is then the same as before.
\<close>

theorem removeOption_absent_value:
  assumes "isMulti p" "\<not> isDisabled p" "selected s = Seq xs" "pending s = None"
    and "val option \<notin> set xs"
  shows "\<exists>s'. removeOption p option s = Inr s'
           \<and> emitted s' = emitted s @ [OptionDeselected (Given option)]
           \<and> selected s' = Seq xs \<and> modelValue s' = Seq xs"
  using assms
  by (auto simp: removeOption_def assign_def emit_def modelValue_def filter_neq_removeAll)

theorem removeOption_absent_value_witness:
  "isMulti multiProps \<and> \<not> isDisabled multiProps
   \<and> selected (mounted (Seq [1, 3 :: int])) = Seq [1, 3]
   \<and> pending (mounted (Seq [1, 3 :: int])) = None
   \<and> val optionB \<notin> set [1, 3]
   \<and> (\<exists>s'. removeOption multiProps optionB (mounted (Seq [1, 3])) = Inr s'
         \<and> emitted s' = emitted (mounted (Seq [1, 3])) @ [OptionDeselected (Given optionB)]
         \<and> selected s' = Seq [1, 3] \<and> modelValue s' = Seq [1, 3])"
proof -
  have h1: "isMulti multiProps" and h2: "\<not> isDisabled multiProps"
    by (simp_all add: example_defs)
  have h3: "selected (mounted (Seq [1, 3 :: int])) = Seq [1, 3]"
    and h4: "pending (mounted (Seq [1, 3 :: int])) = None"
    by (simp_all add: example_defs)
  have h5: "val optionB \<notin> set [1, 3]"
    by (simp add: example_defs)
  show ?thesis
    using h1 h2 h3 h4 h5 removeOption_absent_value [OF h1 h2 h3 h4 h5] by simp
qed

section \<open>Arrow keys\<close>

lemma findIndexFrom_none:
  "findIndexFrom P i xs = - 1 \<longleftrightarrow> (\<forall>j<length xs. \<not> P (xs ! j) (int (i + j)))"
proof (induction xs arbitrary: i)
  case Nil
  show ?case by simp
next
  case (Cons x xs)
  show ?case
    using Cons.IH [of "Suc i"] by (simp add: All_less_Suc2 ac_simps)
qed

lemma findIndexFrom_some:
  assumes "findIndexFrom P i xs \<noteq> - 1"
  shows "\<exists>j<length xs. findIndexFrom P i xs = int (i + j) \<and> P (xs ! j) (int (i + j))
           \<and> (\<forall>k<j. \<not> P (xs ! k) (int (i + k)))"
  using assms
proof (induction xs arbitrary: i)
  case Nil
  then show ?case by simp
next
  case (Cons x xs)
  show ?case
  proof (cases "P x (int i)")
    case True
    then show ?thesis by (intro exI [of _ 0]) simp
  next
    case False
    with Cons.prems have "findIndexFrom P (Suc i) xs \<noteq> - 1" by simp
    from Cons.IH [OF this] obtain j where j: "j < length xs"
      "findIndexFrom P (Suc i) xs = int (Suc i + j)" "P (xs ! j) (int (Suc i + j))"
      "\<forall>k<j. \<not> P (xs ! k) (int (Suc i + k))" by blast
    show ?thesis
      using False j by (intro exI [of _ "Suc j"]) (simp add: All_less_Suc2 ac_simps)
  qed
qed

lemma reduceFrom_snoc:
  "reduceFrom f acc i (xs @ [x]) = f (reduceFrom f acc i xs) x (int (i + length xs))"
  by (induction xs arbitrary: acc i) (auto simp: ac_simps)

lemma reduce_last_none:
  "reduce (\<lambda>acc x i. if Q x i then i else acc) (- 1) xs = - 1
     \<longleftrightarrow> (\<forall>j<length xs. \<not> Q (xs ! j) (int j))"
proof (induction xs rule: rev_induct)
  case Nil
  show ?case by (simp add: reduce_def)
next
  case (snoc x xs)
  then show ?case
    by (auto simp: reduce_def reduceFrom_snoc All_less_Suc nth_append)
qed

lemma reduce_last_some:
  assumes "reduce (\<lambda>acc x i. if Q x i then i else acc) (- 1) xs \<noteq> - 1"
  shows "\<exists>j<length xs. reduce (\<lambda>acc x i. if Q x i then i else acc) (- 1) xs = int j
           \<and> Q (xs ! j) (int j) \<and> (\<forall>k<length xs. j < k \<longrightarrow> \<not> Q (xs ! k) (int k))"
  using assms
proof (induction xs rule: rev_induct)
  case Nil
  then show ?case by (simp add: reduce_def)
next
  case (snoc x xs)
  show ?case
  proof (cases "Q x (int (length xs))")
    case True
    then show ?thesis
      by (intro exI [of _ "length xs"]) (simp add: reduce_def reduceFrom_snoc)
  next
    case False
    with snoc.prems have "reduce (\<lambda>acc x i. if Q x i then i else acc) (- 1) xs \<noteq> - 1"
      by (simp add: reduce_def reduceFrom_snoc)
    from snoc.IH [OF this] obtain j where j: "j < length xs"
      "reduce (\<lambda>acc x i. if Q x i then i else acc) (- 1) xs = int j" "Q (xs ! j) (int j)"
      "\<forall>k<length xs. j < k \<longrightarrow> \<not> Q (xs ! k) (int k)" by blast
    show ?thesis
      using False j
      by (intro exI [of _ j]) (auto simp: reduce_def reduceFrom_snoc nth_append less_Suc_eq)
  qed
qed


lemma arrowDownIndex_enabled:
  fixes flat :: "'v opt list" and cur :: int
  defines "en \<equiv> \<lambda>j. j < length flat \<and> \<not> isTrue (disabled (flat ! j))"
  defines "r \<equiv> arrowDownIndex cur flat"
  shows "if \<exists>j. en j then 0 \<le> r \<and> en (nat r) else r = - 1"
    and "if \<exists>j. en j \<and> cur < int j
         then cur < r \<and> (\<forall>k. en k \<and> cur < int k \<longrightarrow> r \<le> int k)
         else (\<forall>k. en k \<longrightarrow> r \<le> int k)"
proof -
  let ?P = "\<lambda>option i. \<not> isTrue (disabled option) \<and> i > cur"
  let ?F = "\<lambda>(option :: 'v opt) (i :: int). \<not> isTrue (disabled option)"
  let ?next = "findIndex ?P flat" and ?first = "findIndex ?F flat"
  have r: "r = (if ?next = - 1 then ?first else ?next)"
    by (simp add: r_def arrowDownIndex_def)
  have next_none: "?next = - 1 \<longleftrightarrow> \<not> (\<exists>j. en j \<and> cur < int j)"
    using findIndexFrom_none [of ?P 0 flat] by (auto simp: findIndex_def en_def)
  have first_none: "?first = - 1 \<longleftrightarrow> \<not> (\<exists>j. en j)"
    using findIndexFrom_none [of ?F 0 flat] by (auto simp: findIndex_def en_def)
  have next_some: "\<exists>j. ?next = int j \<and> en j \<and> cur < int j \<and> (\<forall>k. en k \<and> cur < int k \<longrightarrow> j \<le> k)"
    if "?next \<noteq> - 1"
  proof -
    from findIndexFrom_some [of ?P 0 flat] that obtain j where j: "j < length flat"
      "?next = int j" "?P (flat ! j) (int j)" "\<forall>k<j. \<not> ?P (flat ! k) (int k)"
      by (auto simp: findIndex_def)
    have "\<forall>k. en k \<and> cur < int k \<longrightarrow> j \<le> k"
      using j(4) by (auto simp: en_def not_less [symmetric])
    with j show ?thesis by (auto simp: en_def)
  qed
  have first_some: "\<exists>j. ?first = int j \<and> en j \<and> (\<forall>k. en k \<longrightarrow> j \<le> k)"
    if "?first \<noteq> - 1"
  proof -
    from findIndexFrom_some [of ?F 0 flat] that obtain j where j: "j < length flat"
      "?first = int j" "?F (flat ! j) (int j)" "\<forall>k<j. \<not> ?F (flat ! k) (int k)"
      by (auto simp: findIndex_def)
    have "\<forall>k. en k \<longrightarrow> j \<le> k"
      using j(4) by (auto simp: en_def not_less [symmetric])
    with j show ?thesis by (auto simp: en_def)
  qed
  show "if \<exists>j. en j then 0 \<le> r \<and> en (nat r) else r = - 1"
  proof (cases "?next = - 1")
    case True
    then show ?thesis
      using first_none first_some by (cases "?first = - 1") (auto simp: r)
  next
    case False
    then show ?thesis
      using next_some [OF False] by (auto simp: r)
  qed
  show "if \<exists>j. en j \<and> cur < int j
         then cur < r \<and> (\<forall>k. en k \<and> cur < int k \<longrightarrow> r \<le> int k)
         else (\<forall>k. en k \<longrightarrow> r \<le> int k)"
  proof (cases "?next = - 1")
    case True
    then show ?thesis
      using next_none first_none first_some by (cases "?first = - 1") (auto simp: r)
  next
    case False
    then show ?thesis
      using next_none next_some [OF False] by (auto simp: r)
  qed
qed


lemma arrowUpIndex_enabled:
  fixes flat :: "'v opt list" and cur :: int
  defines "en \<equiv> \<lambda>j. j < length flat \<and> \<not> isTrue (disabled (flat ! j))"
  defines "r \<equiv> arrowUpIndex cur flat"
  shows "if \<exists>j. en j then 0 \<le> r \<and> en (nat r) else r = - 1"
    and "if \<exists>j. en j \<and> int j < cur
         then r < cur \<and> (\<forall>k. en k \<and> int k < cur \<longrightarrow> int k \<le> r)
         else (\<forall>k. en k \<longrightarrow> int k \<le> r)"
proof -
  let ?P = "\<lambda>(option :: 'v opt) i. \<not> isTrue (disabled option) \<and> i < cur"
  let ?F = "\<lambda>(option :: 'v opt) (i :: int). \<not> isTrue (disabled option)"
  let ?prev = "reduce (\<lambda>acc option i. if ?P option i then i else acc) (- 1) flat"
  let ?last = "reduce (\<lambda>acc option i. if ?F option i then i else acc) (- 1) flat"
  have r: "r = (if ?prev = - 1 then ?last else ?prev)"
    by (simp add: r_def arrowUpIndex_def)
  have prev_none: "?prev = - 1 \<longleftrightarrow> \<not> (\<exists>j. en j \<and> int j < cur)"
    using reduce_last_none [of ?P flat] by (auto simp: en_def)
  have last_none: "?last = - 1 \<longleftrightarrow> \<not> (\<exists>j. en j)"
    using reduce_last_none [of ?F flat] by (auto simp: en_def)
  have prev_some: "\<exists>j. ?prev = int j \<and> en j \<and> int j < cur \<and> (\<forall>k. en k \<and> int k < cur \<longrightarrow> k \<le> j)"
    if "?prev \<noteq> - 1"
  proof -
    from reduce_last_some [of ?P flat] that obtain j where j: "j < length flat"
      "?prev = int j" "?P (flat ! j) (int j)"
      "\<forall>k<length flat. j < k \<longrightarrow> \<not> ?P (flat ! k) (int k)"
      by blast
    have "\<forall>k. en k \<and> int k < cur \<longrightarrow> k \<le> j"
      using j(4) by (auto simp: en_def not_less [symmetric])
    with j show ?thesis by (auto simp: en_def)
  qed
  have last_some: "\<exists>j. ?last = int j \<and> en j \<and> (\<forall>k. en k \<longrightarrow> k \<le> j)"
    if "?last \<noteq> - 1"
  proof -
    from reduce_last_some [of ?F flat] that obtain j where j: "j < length flat"
      "?last = int j" "?F (flat ! j) (int j)"
      "\<forall>k<length flat. j < k \<longrightarrow> \<not> ?F (flat ! k) (int k)"
      by blast
    have "\<forall>k. en k \<longrightarrow> k \<le> j"
      using j(4) by (auto simp: en_def not_less [symmetric])
    with j show ?thesis by (auto simp: en_def)
  qed
  show "if \<exists>j. en j then 0 \<le> r \<and> en (nat r) else r = - 1"
  proof (cases "?prev = - 1")
    case True
    then show ?thesis
      using last_none last_some by (cases "?last = - 1") (auto simp: r)
  next
    case False
    then show ?thesis
      using prev_some [OF False] by (auto simp: r)
  qed
  show "if \<exists>j. en j \<and> int j < cur
         then r < cur \<and> (\<forall>k. en k \<and> int k < cur \<longrightarrow> int k \<le> r)
         else (\<forall>k. en k \<longrightarrow> int k \<le> r)"
  proof (cases "?prev = - 1")
    case True
    then show ?thesis
      using prev_none last_none last_some by (cases "?last = - 1") (auto simp: r)
  next
    case False
    then show ?thesis
      using prev_none prev_some [OF False] by (auto simp: r)
  qed
qed

subsection \<open>The focused index and the flat list\<close>

lemma availableOptions_focus [simp]:
  "availableOptions p (s\<lparr>focusedOption := i\<rparr>) = availableOptions p s"
  by (simp add: availableOptions_def Let_def)

lemma flat_focus [simp]:
  "availableOptionsGroupedFlat p (s\<lparr>focusedOption := i\<rparr>) = availableOptionsGroupedFlat p s"
  by (simp add: availableOptionsGroupedFlat_def availableOptionsGrouped_def isGroupingEnabled_def)

lemma shaped_iff: "shaped p s \<longleftrightarrow> (isMulti p \<longrightarrow> (\<exists>xs. selected s = Seq xs))"
  by (cases "selected s") (simp_all add: shaped_def)

lemma setOption_returns:
  assumes "shaped p s"
  shows "\<exists>s'. setOption p option s = Inr s' \<and> focusedOption s' = focusedOption s \<and> shaped p s'"
proof (cases "isMulti p")
  case True
  then obtain xs where "selected s = Seq xs" using assms by (auto simp: shaped_iff)
  with True show ?thesis
    by (simp add: setOption_def push_def emit_def shaped_iff Let_def)
next
  case False
  then show ?thesis
    by (simp add: setOption_def assign_def emit_def shaped_iff Let_def)
qed

lemma selectFocused_returns:
  assumes "shaped p s" "availableOptionsGroupedFlat p s = Inr flat"
  shows "\<exists>s'. selectFocused p i s = Inr s' \<and> focusedOption s' = focusedOption s \<and> shaped p s'"
  using assms setOption_returns [OF assms(1)]
  by (auto simp: selectFocused_def split: option.splits)

lemma hasSelectedValue_returns:
  assumes "shaped p s"
  shows "\<exists>b. hasSelectedValue p s = Inr b"
  using assms by (auto simp: hasSelectedValue_def shaped_iff)

lemma arrow_step:
  assumes "menuOpen s" "shaped p s" "availableOptionsGroupedFlat p s = Inr flat"
    and "key e = ''ArrowDown'' \<or> key e = ''ArrowUp''"
  shows "\<exists>s'. handleNavigation p e s = Inr s'
           \<and> focusedOption s' =
               (if key e = ''ArrowDown'' then arrowDownIndex (focusedOption s) flat
                else arrowUpIndex (focusedOption s) flat)"
proof -
  define r where "r = (if key e = ''ArrowDown'' then arrowDownIndex (focusedOption s) flat
                else arrowUpIndex (focusedOption s) flat)"
  define s2 where "s2 = s\<lparr>focusedOption := r\<rparr>"
  have sh2: "shaped p s2" using assms(2) by (simp add: s2_def shaped_iff)
  have fl2: "availableOptionsGroupedFlat p s2 = Inr flat" using assms(3) by (simp add: s2_def)
  obtain s4 where s4: "(if code e = ''Space'' \<and> length (search s2) = 0
                  then selectFocused p (focusedOption s) s2 else Inr s2) = Inr s4"
      "focusedOption s4 = r" "shaped p s4"
    using selectFocused_returns [OF sh2 fl2, of "focusedOption s"] sh2
    by (cases "code e = ''Space'' \<and> length (search s2) = 0") (auto simp: s2_def)
  obtain b where b: "hasSelectedValue p s4 = Inr b"
    using hasSelectedValue_returns [OF s4(3)] by blast
  have "handleNavigation p e s = Inr s4"
    using assms(1,3,4) s4(1) b
    by (auto simp: handleNavigation_def arrowDown_def arrowUp_def s2_def r_def Let_def)
  then show ?thesis using s4(2) by (simp add: r_def)
qed


lemma flat_single:
  assumes "\<not> isMulti p" "\<not> isGrouped p" "search s = []"
  shows "availableOptionsGroupedFlat p s
           = Inr (case displayedOptions p of Some d \<Rightarrow> d | None \<Rightarrow> options p)"
  using assms
  by (simp add: availableOptionsGroupedFlat_def availableOptionsGrouped_def
      isGroupingEnabled_def availableOptions_def)

text \<open>
  Claim C6. With the menu open, ArrowDown and ArrowUp return, and the focused index they
  set is an enabled option of the flattened visible list, or \<open>-1\<close> when the list has no
  enabled option. ArrowDown takes the first enabled option after the current index and,
  when there is none, the first enabled option of the list; ArrowUp takes the last enabled
  option before the current index and, when there is none, the last enabled option of the
  list.
\<close>

theorem arrow_keys_skip_disabled:
  assumes "menuOpen s" "shaped p s" "availableOptionsGroupedFlat p s = Inr flat"
    and "key e = ''ArrowDown'' \<or> key e = ''ArrowUp''"
  shows "\<exists>s'. handleNavigation p e s = Inr s' \<and>
     (let en = (\<lambda>j. j < length flat \<and> \<not> isTrue (disabled (flat ! j)));
          cur = focusedOption s; r = focusedOption s'
      in (if \<exists>j. en j then 0 \<le> r \<and> en (nat r) else r = - 1)
       \<and> (key e = ''ArrowDown'' \<longrightarrow>
            (if \<exists>j. en j \<and> cur < int j
             then cur < r \<and> (\<forall>k. en k \<and> cur < int k \<longrightarrow> r \<le> int k)
             else (\<forall>k. en k \<longrightarrow> r \<le> int k)))
       \<and> (key e = ''ArrowUp'' \<longrightarrow>
            (if \<exists>j. en j \<and> int j < cur
             then r < cur \<and> (\<forall>k. en k \<and> int k < cur \<longrightarrow> int k \<le> r)
             else (\<forall>k. en k \<longrightarrow> int k \<le> r))))"
proof -
  obtain s' where s': "handleNavigation p e s = Inr s'"
    "focusedOption s' = (if key e = ''ArrowDown'' then arrowDownIndex (focusedOption s) flat
                else arrowUpIndex (focusedOption s) flat)"
    using arrow_step [OF assms] by blast
  show ?thesis
  proof (cases "key e = ''ArrowDown''")
    case True
    then show ?thesis
      using s' arrowDownIndex_enabled [of flat "focusedOption s"]
      by (simp add: Let_def)
  next
    case False
    then have "key e = ''ArrowUp''" using assms(4) by simp
    then show ?thesis
      using s' arrowUpIndex_enabled [of flat "focusedOption s"]
      by (simp add: Let_def)
  qed
qed


theorem arrow_keys_skip_disabled_witness:
  "menuOpen navState \<and> shaped navProps navState
   \<and> availableOptionsGroupedFlat navProps navState = Inr [optionA, optionX, optionC]
   \<and> key arrowDownKey = ''ArrowDown'' \<and> key arrowUpKey = ''ArrowUp''
   \<and> handleNavigation navProps arrowDownKey navState = Inr (navState\<lparr>focusedOption := 2\<rparr>)
   \<and> handleNavigation navProps arrowUpKey navState = Inr (navState\<lparr>focusedOption := 2\<rparr>)
   \<and> isTrue (disabled optionX)"
proof -
  have h1: "menuOpen navState" by (simp add: example_defs optionX_def navProps_def navState_def)
  have h2: "shaped navProps navState" by (simp add: shaped_def example_defs optionX_def navProps_def navState_def)
  have h3: "availableOptionsGroupedFlat navProps navState = Inr [optionA, optionX, optionC]"
    by (simp add: flat_defs example_defs optionX_def navProps_def navState_def)
  have h4: "key arrowDownKey = ''ArrowDown'' \<or> key arrowDownKey = ''ArrowUp''"
    and h5: "key arrowUpKey = ''ArrowDown'' \<or> key arrowUpKey = ''ArrowUp''"
    by (simp_all add: key_defs)
  have d: "handleNavigation navProps arrowDownKey navState = Inr (navState\<lparr>focusedOption := 2\<rparr>)"
    by (simp add: run_defs flat_defs example_defs optionX_def navProps_def navState_def key_defs)
  have u: "handleNavigation navProps arrowUpKey navState = Inr (navState\<lparr>focusedOption := 2\<rparr>)"
    by (simp add: run_defs flat_defs example_defs optionX_def navProps_def navState_def key_defs)
  show ?thesis
    using h1 h2 h3 d u
      arrow_keys_skip_disabled [OF h1 h2 h3 h4] arrow_keys_skip_disabled [OF h1 h2 h3 h5]
    by (simp add: key_defs optionX_def isTrue_def)
qed

section \<open>Enter and Space\<close>

text \<open>
  Claim C9. With the menu open and no option focused (the focused index is \<open>-1\<close> or
  any other number that is no index of the flattened visible list), Enter, and Space
  with an empty search text, read \<open>undefined\<close> from the list and do nothing: the handler
  returns the state it was given, so the selection, the menu, the search text and the
  emitted events are as before.
\<close>

theorem enter_without_focused_option:
  assumes "menuOpen s" "shaped p s" "availableOptionsGroupedFlat p s = Inr flat"
    and "focusedOption s < 0 \<or> int (length flat) \<le> focusedOption s"
    and "key e = ''Enter'' \<or> (key e = '' '' \<and> code e = ''Space'' \<and> search s = [])"
  shows "at flat (focusedOption s) = None \<and> handleNavigation p e s = Inr s"
proof -
  have none: "at flat (focusedOption s) = None"
    using assms(4) by (auto simp: at_def)
  obtain b where b: "hasSelectedValue p s = Inr b"
    using hasSelectedValue_returns [OF assms(2)] by blast
  have "handleNavigation p e s = Inr s"
    using assms(1,3,5) none b
    by (auto simp: handleNavigation_def selectFocused_def Let_def)
  with none show ?thesis by simp
qed

theorem enter_without_focused_option_witness:
  "menuOpen (navState\<lparr>focusedOption := - 1\<rparr>) \<and> shaped navProps (navState\<lparr>focusedOption := - 1\<rparr>)
   \<and> availableOptionsGroupedFlat navProps (navState\<lparr>focusedOption := - 1\<rparr>)
        = Inr [optionA, optionX, optionC]
   \<and> focusedOption (navState\<lparr>focusedOption := - 1\<rparr>) < 0
   \<and> key enterKey = ''Enter''
   \<and> key spaceKey = '' '' \<and> code spaceKey = ''Space'' \<and> search (navState\<lparr>focusedOption := - 1\<rparr>) = []
   \<and> handleNavigation navProps enterKey (navState\<lparr>focusedOption := - 1\<rparr>)
        = Inr (navState\<lparr>focusedOption := - 1\<rparr>)
   \<and> handleNavigation navProps spaceKey (navState\<lparr>focusedOption := - 1\<rparr>)
        = Inr (navState\<lparr>focusedOption := - 1\<rparr>)"
proof -
  let ?s = "navState\<lparr>focusedOption := - 1\<rparr>"
  have h1: "menuOpen ?s" by (simp add: example_defs optionX_def navProps_def navState_def)
  have h2: "shaped navProps ?s" by (simp add: shaped_def example_defs optionX_def navProps_def navState_def)
  have h3: "availableOptionsGroupedFlat navProps ?s = Inr [optionA, optionX, optionC]"
    by (simp add: flat_defs example_defs optionX_def navProps_def navState_def)
  have h4: "focusedOption ?s < 0 \<or> int (length [optionA, optionX, optionC]) \<le> focusedOption ?s"
    by (simp add: example_defs optionX_def navProps_def navState_def)
  have h5: "key enterKey = ''Enter'' \<or> (key enterKey = '' '' \<and> code enterKey = ''Space'' \<and> search ?s = [])"
    and h6: "key spaceKey = ''Enter'' \<or> (key spaceKey = '' '' \<and> code spaceKey = ''Space'' \<and> search ?s = [])"
    by (simp_all add: key_defs example_defs optionX_def navProps_def navState_def)
  show ?thesis
    using h1 h2 h3 enter_without_focused_option [OF h1 h2 h3 h4 h5]
      enter_without_focused_option [OF h1 h2 h3 h4 h6]
    by (simp add: key_defs example_defs optionX_def navProps_def navState_def)
qed

lemma openMenu_focus:
  assumes "options p = [a, b, c]" "\<not> isTrue (disabled a)" "focusedOption s0 = - 1"
  shows "openMenu p s0 = s0\<lparr>menuOpen := True, focusedOption := (if shouldAutofocusOption p then 0 else - 1)\<rparr>"
  using assms by (cases s0) (simp add: openMenu_def findIndex_def)

text \<open>
  Claim C7, as amended. In single mode with the options \<open>[A, B, C]\<close>, none disabled, no
  \<open>displayedOptions\<close>, no grouping and no search text, the menu is opened from the
  initial focused index \<open>-1\<close>.
  With \<open>shouldAutofocusOption\<close> off the menu opens with no option focused, ArrowDown
  twice moves the focused index to \<open>1\<close>, and Enter selects \<open>B\<close>. With
  \<open>shouldAutofocusOption\<close> on, the default, \<open>openMenu\<close> has focused index \<open>0\<close>,
  ArrowDown twice moves the focused index to \<open>2\<close>, and Enter selects \<open>C\<close>. Enter writes
  the value of the focused option to the model, emits \<open>optionSelected\<close> with that option,
  empties the search text, and closes the menu when \<open>closeOnSelect\<close> is on.
\<close>

theorem arrow_down_twice_then_enter:
  assumes "\<not> isMulti p" "\<not> isGrouped p" "displayedOptions p = None" "options p = [a, b, c]"
    and "\<not> isTrue (disabled a)" "\<not> isTrue (disabled b)" "\<not> isTrue (disabled c)"
    and "focusedOption s0 = - 1" "search s0 = []" "pending s0 = None"
  shows "\<exists>s1 s2 s3.
      handleNavigation p arrowDownKey (openMenu p s0) = Inr s1
    \<and> handleNavigation p arrowDownKey s1 = Inr s2
    \<and> focusedOption s2 = (if shouldAutofocusOption p then 2 else 1)
    \<and> handleNavigation p enterKey s2 = Inr s3
    \<and> modelValue s3 = Scalar (Some (val (if shouldAutofocusOption p then c else b)))
    \<and> emitted s3 = emitted s0 @ [OptionSelected (if shouldAutofocusOption p then c else b)]
    \<and> menuOpen s3 = (\<not> closeOnSelect p)
    \<and> search s3 = []"
proof -
  have flat: "availableOptionsGroupedFlat p s = Inr [a, b, c]" if "search s = []" for s
    using flat_single [OF assms(1,2) that] assms(3,4) by simp
  define i0 :: int where "i0 = (if shouldAutofocusOption p then 0 else - 1)"
  define s where "s = s0\<lparr>menuOpen := True, focusedOption := i0\<rparr>"
  have op: "openMenu p s0 = s"
    using openMenu_focus [OF assms(4,5,8)] by (simp add: s_def i0_def)
  have i0: "i0 = 0 \<or> i0 = - 1" by (simp add: i0_def)
  have s1: "handleNavigation p arrowDownKey s = Inr (s\<lparr>focusedOption := i0 + 1\<rparr>)"
    using i0 assms(1,5,6,7,9)
    by (auto simp: run_defs key_defs flat s_def)
  have s2: "handleNavigation p arrowDownKey (s\<lparr>focusedOption := i0 + 1\<rparr>)
              = Inr (s\<lparr>focusedOption := i0 + 2\<rparr>)"
    using i0 assms(1,5,6,7,9)
    by (auto simp: run_defs key_defs flat s_def)
  define o3 where "o3 = (if shouldAutofocusOption p then c else b)"
  have s3: "handleNavigation p enterKey (s\<lparr>focusedOption := i0 + 2\<rparr>)
              = Inr ((if closeOnSelect p then (\<lambda>t. t\<lparr>menuOpen := False\<rparr>) else (\<lambda>t. t))
                  ((emit (OptionSelected o3) (assign p (Scalar (Some (val o3))) (s\<lparr>focusedOption := i0 + 2\<rparr>)))
                       \<lparr>search := []\<rparr>))"
    using assms(1,5,6,7,9)
    by (auto simp: run_defs key_defs flat s_def i0_def o3_def)
  show ?thesis
    unfolding op
    apply (rule exI [of _ "s\<lparr>focusedOption := i0 + 1\<rparr>"])
    apply (rule exI [of _ "s\<lparr>focusedOption := i0 + 2\<rparr>"])
    apply (rule exI [of _ "(if closeOnSelect p then (\<lambda>t. t\<lparr>menuOpen := False\<rparr>) else (\<lambda>t. t))
                  ((emit (OptionSelected o3) (assign p (Scalar (Some (val o3))) (s\<lparr>focusedOption := i0 + 2\<rparr>)))
                       \<lparr>search := []\<rparr>)"])
    using s1 s2 s3 assms(10)
    by (auto simp: i0_def o3_def s_def emit_def assign_def modelValue_def)
qed


theorem arrow_down_twice_then_enter_witness:
  "\<not> isMulti singleProps \<and> \<not> isGrouped singleProps \<and> displayedOptions singleProps = None
   \<and> options singleProps = [optionA, optionB, optionC]
   \<and> \<not> isTrue (disabled optionA) \<and> \<not> isTrue (disabled optionB) \<and> \<not> isTrue (disabled optionC)
   \<and> focusedOption (mounted (Scalar None) :: int state) = - 1
   \<and> search (mounted (Scalar None) :: int state) = []
   \<and> pending (mounted (Scalar None) :: int state) = None
   \<and> (\<exists>s1 s2 s3.
        handleNavigation (singleProps\<lparr>shouldAutofocusOption := False\<rparr>) arrowDownKey
          (openMenu (singleProps\<lparr>shouldAutofocusOption := False\<rparr>) (mounted (Scalar None))) = Inr s1
      \<and> handleNavigation (singleProps\<lparr>shouldAutofocusOption := False\<rparr>) arrowDownKey s1 = Inr s2
      \<and> focusedOption s2 = 1
      \<and> handleNavigation (singleProps\<lparr>shouldAutofocusOption := False\<rparr>) enterKey s2 = Inr s3
      \<and> modelValue s3 = Scalar (Some (val optionB))
      \<and> emitted s3 = [OptionSelected optionB]
      \<and> \<not> menuOpen s3)
   \<and> (\<exists>s1 s2 s3.
        handleNavigation singleProps arrowDownKey (openMenu singleProps (mounted (Scalar None))) = Inr s1
      \<and> handleNavigation singleProps arrowDownKey s1 = Inr s2
      \<and> focusedOption s2 = 2
      \<and> handleNavigation singleProps enterKey s2 = Inr s3
      \<and> modelValue s3 = Scalar (Some (val optionC))
      \<and> emitted s3 = [OptionSelected optionC]
      \<and> \<not> menuOpen s3)"
proof -
  let ?q = "singleProps\<lparr>shouldAutofocusOption := False\<rparr>"
  let ?m = "mounted (Scalar None) :: int state"
  have p1: "\<not> isMulti singleProps" "\<not> isGrouped singleProps" "displayedOptions singleProps = None"
    "options singleProps = [optionA, optionB, optionC]"
    by (simp_all add: singleProps_def withDefaults_def)
  have q1: "\<not> isMulti ?q" "\<not> isGrouped ?q" "displayedOptions ?q = None"
    "options ?q = [optionA, optionB, optionC]"
    by (simp_all add: singleProps_def withDefaults_def)
  have d: "\<not> isTrue (disabled optionA)" "\<not> isTrue (disabled optionB)" "\<not> isTrue (disabled optionC)"
    by (simp_all add: isTrue_def example_defs)
  have m: "focusedOption ?m = - 1" "search ?m = []" "pending ?m = None"
    by (simp_all add: mounted_def)
  have a: "shouldAutofocusOption singleProps" "\<not> shouldAutofocusOption ?q"
    "closeOnSelect singleProps" "closeOnSelect ?q" "emitted ?m = []"
    by (simp_all add: singleProps_def withDefaults_def mounted_def)
  show ?thesis
    using p1 d m
      arrow_down_twice_then_enter [OF p1 d m]
      arrow_down_twice_then_enter [OF q1 d m]
    by (simp add: a) blast
qed

text \<open>
  The claim as written has the focused index at \<open>1\<close> after two ArrowDown presses in an
  open menu. With the default props the menu opens with index \<open>0\<close> focused, the two
  presses end on index \<open>2\<close>, and Enter selects \<open>C\<close>, not \<open>B\<close>.
\<close>

theorem arrow_down_twice_after_autofocus_counterexample:
  "\<not> isMulti singleProps \<and> options singleProps = [optionA, optionB, optionC]
   \<and> menuOpen (openMenu singleProps (mounted (Scalar None)))
   \<and> andThen (handleNavigation singleProps arrowDownKey (openMenu singleProps (mounted (Scalar None))))
        (handleNavigation singleProps arrowDownKey)
       = Inr ((mounted (Scalar None))\<lparr>menuOpen := True, focusedOption := 2\<rparr>)
   \<and> handleNavigation singleProps enterKey
        ((mounted (Scalar None))\<lparr>menuOpen := True, focusedOption := 2\<rparr>)
       = Inr ((mounted (Scalar (Some (val optionC))))
               \<lparr>focusedOption := 2, emitted := [OptionSelected optionC]\<rparr>)
   \<and> val optionC \<noteq> val optionB"
  by (simp add: run_defs flat_defs key_defs example_defs openMenu_def)

section \<open>Backspace\<close>

text \<open>
  With the menu open and an empty search text, Backspace writes the selection sequence
  without its last element in multi mode; in single mode it writes \<open>undefined\<close> when the
  selected value is truthy, and does nothing when it is falsy. No event is emitted.
\<close>

lemma backspace_removes_last:
  assumes "menuOpen s" "search s = []" "key e = ''Backspace''" "code e \<noteq> ''Space''"
    and "pending s = None"
  shows "isMulti p \<Longrightarrow> selected s = Seq xs \<Longrightarrow> xs \<noteq> [] \<Longrightarrow>
           \<exists>s'. handleNavigation p e s = Inr s' \<and> modelValue s' = Seq (butlast xs)
             \<and> emitted s' = emitted s"
    and "\<not> isMulti p \<Longrightarrow> selected s = Scalar (Some v) \<Longrightarrow> truthy p v \<Longrightarrow>
           \<exists>s'. handleNavigation p e s = Inr s' \<and> modelValue s' = Scalar None
             \<and> emitted s' = emitted s"
    and "\<not> isMulti p \<Longrightarrow> selected s = Scalar (Some v) \<Longrightarrow> \<not> truthy p v \<Longrightarrow>
           handleNavigation p e s = Inr s"
  using assms
  by (auto simp: handleNavigation_def hasSelectedValue_def assign_def modelValue_def Let_def)

text \<open>
  Claim C8. Backspace with the menu open, an empty search text and a non-empty selection
  should drop the last element of the sequence in multi mode and clear the value in
  single mode, emitting no \<open>optionDeselected\<close>. The code tests the single selection
  with \<open>!!selected.value\<close>: with the option of value \<open>0\<close> selected (\<open>selectedOptions\<close>
  finds it, so it is shown as the selected option), Backspace leaves the state as it
  was and the value is not cleared.
\<close>

theorem backspace_keeps_falsy_value:
  "selectedOptions zeroProps zeroSelected = [Some optionZero]
   \<and> menuOpen zeroSelected \<and> search zeroSelected = []
   \<and> handleNavigation zeroProps backspaceKey zeroSelected = Inr zeroSelected
   \<and> selected zeroSelected = Scalar (Some (val optionZero))"
  by (simp add: run_defs key_defs example_defs zeroProps_def zeroSelected_def optionZero_def
      selectedOptions_def)

section \<open>Clearing\<close>

text \<open>
  \<open>clear\<close> writes the empty value of the mode, closes the menu, empties the search text
  and emits one \<open>optionDeselected\<close>. In multi mode the payload is \<open>null\<close>. In single
  mode the payload is read from \<open>selectedOptions\<close> after the assignment: it is the
  option that was selected when the parent binds \<open>v-model\<close> (the ref still reads the old
  value), and \<open>undefined\<close> when the assignment is local and read back at once.
\<close>

lemma clear_effects:
  assumes "pending s = None"
  shows "modelValue (clear p s) = (if isMulti p then Seq [] else Scalar None)"
    and "\<not> menuOpen (clear p s)" and "search (clear p s) = []"
    and "emitted (clear p s) = emitted s @
           [OptionDeselected
              (if isMulti p then Null
               else if vmodel p then first (selectedOptions p s)
               else Undefined)]"
  using assms
  by (auto simp: clear_def assign_def emit_def modelValue_def selectedOptions_def first_def
      at_def Let_def find_None_iff split: option.splits model.splits)

lemma clear_single_bound_emits_option:
  "clear (singleProps\<lparr>vmodel := True\<rparr>) selectedB
     = \<lparr>selected = Scalar (Some 2), pending = Some (Scalar None), search = [],
        menuOpen = False, focusedOption = - 1, emitted = [OptionDeselected (Given optionB)]\<rparr>"
  by (simp add: clear_def assign_def emit_def selectedOptions_def first_def at_def
      example_defs selectedB_def)

text \<open>
  Claim C3. \<open>clear\<close> should reset the selection to the empty value of the mode, close
  the menu, empty the search text and emit exactly one \<open>optionDeselected\<close>, with the
  option that was selected in single mode and \<open>null\<close> in multi mode. In single mode,
  with a model that is written locally, the code emits \<open>undefined\<close>: with \<open>B\<close> selected,
  \<open>clear\<close> resets the selection, closes the menu and emits \<open>optionDeselected\<close> once, but
  the payload is not \<open>B\<close>.
\<close>

theorem clear_single_emits_undefined:
  "\<not> isMulti singleProps \<and> selectedOptions singleProps selectedB = [Some optionB]
   \<and> clear singleProps selectedB
       = \<lparr>selected = Scalar None, pending = None, search = [], menuOpen = False,
          focusedOption = - 1, emitted = [OptionDeselected Undefined]\<rparr>"
  by (simp add: clear_def assign_def emit_def selectedOptions_def first_def at_def
      example_defs selectedB_def)

section \<open>The disabled control\<close>

lemma availableOptions_isDisabled [simp]:
  "availableOptions (p\<lparr>isDisabled := d\<rparr>) s = availableOptions p s"
  by (simp add: availableOptions_def Let_def cong: option.case_cong)

lemma flat_isDisabled [simp]:
  "availableOptionsGroupedFlat (p\<lparr>isDisabled := d\<rparr>) s = availableOptionsGroupedFlat p s"
  by (simp add: availableOptionsGroupedFlat_def availableOptionsGrouped_def isGroupingEnabled_def)

lemma assign_isDisabled [simp]: "assign (p\<lparr>isDisabled := d\<rparr>) m s = assign p m s"
  by (simp add: assign_def)

lemma setOption_isDisabled [simp]:
  "setOption (p\<lparr>isDisabled := d\<rparr>) option s = setOption p option s"
  by (simp add: setOption_def)

lemma selectedOptions_isDisabled [simp]:
  "selectedOptions (p\<lparr>isDisabled := d\<rparr>) s = selectedOptions p s"
  by (simp add: selectedOptions_def cong: bool.case_cong model.case_cong option.case_cong)

lemma clear_isDisabled [simp]: "clear (p\<lparr>isDisabled := d\<rparr>) s = clear p s"
  by (simp add: clear_def)

lemma arrowDown_isDisabled [simp]: "arrowDown (p\<lparr>isDisabled := d\<rparr>) i s = arrowDown p i s"
  by (simp add: arrowDown_def)

lemma arrowUp_isDisabled [simp]: "arrowUp (p\<lparr>isDisabled := d\<rparr>) i s = arrowUp p i s"
  by (simp add: arrowUp_def)

lemma selectFocused_isDisabled [simp]:
  "selectFocused (p\<lparr>isDisabled := d\<rparr>) i s = selectFocused p i s"
  by (simp add: selectFocused_def cong: option.case_cong)

lemma hasSelectedValue_isDisabled [simp]:
  "hasSelectedValue (p\<lparr>isDisabled := d\<rparr>) s = hasSelectedValue p s"
  by (simp add: hasSelectedValue_def cong: model.case_cong option.case_cong)

lemma handleNavigation_isDisabled [simp]:
  "handleNavigation (p\<lparr>isDisabled := d\<rparr>) e s = handleNavigation p e s"
  by (simp add: handleNavigation_def Let_def cong: if_cong)

text \<open>
  \<open>removeOption\<close> on a disabled control returns the state it was given. \<open>setOption\<close>,
  \<open>clear\<close> and the keyboard handler do not read the \<open>isDisabled\<close> prop.
\<close>

lemma disabled_flag_read_by_removeOption_only:
  "(isDisabled p \<longrightarrow> removeOption p option s = Inr s)
   \<and> setOption (p\<lparr>isDisabled := d\<rparr>) option s = setOption p option s
   \<and> clear (p\<lparr>isDisabled := d\<rparr>) s = clear p s
   \<and> handleNavigation (p\<lparr>isDisabled := d\<rparr>) e s = handleNavigation p e s"
  by (simp add: removeOption_def)

text \<open>
  Claim C4. A mutating operation invoked while the whole control is disabled should be
  ignored: selection, menu and search text unchanged, no notification. \<open>removeOption\<close>
  is. The keyboard handler is not: it listens on the document and tests \<open>menuOpen\<close>
  only. With \<open>B\<close> selected and the menu opened while the control was enabled, the
  control is disabled; Backspace then clears the value, and Enter selects the focused
  option \<open>A\<close>, emits \<open>optionSelected\<close> and closes the menu.
\<close>

theorem disabled_control_obeys_keyboard:
  "openMenu singleProps (mounted (Scalar (Some 2)))
     = (mounted (Scalar (Some 2)))\<lparr>menuOpen := True, focusedOption := 0\<rparr>
   \<and> isDisabled (singleProps\<lparr>isDisabled := True\<rparr>)
   \<and> handleNavigation (singleProps\<lparr>isDisabled := True\<rparr>) backspaceKey
        ((mounted (Scalar (Some 2)))\<lparr>menuOpen := True, focusedOption := 0\<rparr>)
       = Inr ((mounted (Scalar None))\<lparr>menuOpen := True, focusedOption := 0\<rparr>)
   \<and> handleNavigation (singleProps\<lparr>isDisabled := True\<rparr>) enterKey
        ((mounted (Scalar (Some 2)))\<lparr>menuOpen := True, focusedOption := 0\<rparr>)
       = Inr ((mounted (Scalar (Some 1)))\<lparr>focusedOption := 0, emitted := [OptionSelected optionA]\<rparr>)
   \<and> removeOption (multiProps\<lparr>isDisabled := True\<rparr>) optionA (mounted (Seq [1, 3]))
       = Inr (mounted (Seq [1, 3]))"
  by (simp add: run_defs flat_defs key_defs example_defs openMenu_def removeOption_def)

section \<open>The focused index when the visible options change\<close>

lemma setOption_focus:
  "setOption p option s = Inr s' \<Longrightarrow> focusedOption s' = focusedOption s"
  by (auto simp: setOption_def push_def assign_def emit_def andThen_def Let_def
      split: if_splits sum.splits model.splits)

lemma removeOption_focus:
  "removeOption p option s = Inr s' \<Longrightarrow> focusedOption s' = focusedOption s"
  by (auto simp: removeOption_def assign_def emit_def andThen_def
      split: if_splits sum.splits model.splits)

lemma selectFocused_focus:
  "selectFocused p i s = Inr s' \<Longrightarrow> focusedOption s' = focusedOption s"
  by (auto simp: selectFocused_def andThen_def dest: setOption_focus
      split: sum.splits option.splits)

lemma handleNavigation_focus:
  assumes "key e \<noteq> ''ArrowDown''" "key e \<noteq> ''ArrowUp''" "handleNavigation p e s = Inr s'"
  shows "focusedOption s' = focusedOption s"
proof (cases "menuOpen s")
  case False
  with assms show ?thesis by (simp add: handleNavigation_def)
next
  case True
  let ?i = "focusedOption s"
  from assms True obtain s3 s4 b where
    s3: "(if key e = ''Enter'' then selectFocused p ?i s else Inr s) = Inr s3"
    and s4: "(if code e = ''Space'' \<and> length (search s3) = 0
               then selectFocused p ?i s3 else Inr s3) = Inr s4"
    and s': "(let s5 = (if key e = ''Escape'' then s4\<lparr>menuOpen := False, search := []\<rparr> else s4)
             in if key e = ''Backspace'' \<and> length (search s5) = 0 \<and> b then
                  (if isMulti p
                   then andThen (asArray (selected s5)) (\<lambda>xs. Inr (assign p (Seq (butlast xs)) s5))
                   else Inr (assign p (Scalar None) s5))
                else Inr s5) = Inr s'"
    by (auto simp: handleNavigation_def andThen_def Let_def split: sum.splits)
  have f3: "focusedOption s3 = ?i"
    using s3 by (auto dest: selectFocused_focus split: if_splits)
  have f4: "focusedOption s4 = ?i"
    using s4 f3 by (auto dest: selectFocused_focus split: if_splits)
  show ?thesis
    using s' f4
    by (auto simp: Let_def assign_def andThen_def split: if_splits sum.splits)
qed


text \<open>
  Claim C2, as amended. The focused index is not resolved again when the visible
  options are recomputed. \<open>clear\<close>, \<open>closeMenu\<close>, a click outside, typing into the
  search input of an open menu, the watcher that runs after the search text was emptied,
  \<open>setOption\<close>, \<open>removeOption\<close> and every key but ArrowDown and ArrowUp leave
  \<open>focusedOption\<close> as it was, whatever the new flattened list; only \<open>openMenu\<close> and the
  two arrow keys assign it.
\<close>

theorem focus_not_resolved_after_recomputation:
  "focusedOption (clear p s) = focusedOption s
   \<and> focusedOption (closeMenu s) = focusedOption s
   \<and> focusedOption (handleClickOutside outside s) = focusedOption s
   \<and> (menuOpen s \<longrightarrow> focusedOption (typeSearch p str s) = focusedOption s)
   \<and> (search s = [] \<longrightarrow> focusedOption (searchWatcher p s) = focusedOption s)
   \<and> (\<forall>s'. setOption p option s = Inr s' \<longrightarrow> focusedOption s' = focusedOption s)
   \<and> (\<forall>s'. removeOption p option s = Inr s' \<longrightarrow> focusedOption s' = focusedOption s)
   \<and> (\<forall>s'. key e \<noteq> ''ArrowDown'' \<and> key e \<noteq> ''ArrowUp'' \<and> handleNavigation p e s = Inr s'
          \<longrightarrow> focusedOption s' = focusedOption s)"
proof -
  have "focusedOption (clear p s) = focusedOption s"
    by (simp add: clear_def assign_def emit_def Let_def)
  moreover have "focusedOption (closeMenu s) = focusedOption s"
    by (simp add: closeMenu_def)
  moreover have "focusedOption (handleClickOutside outside s) = focusedOption s"
    by (simp add: handleClickOutside_def)
  moreover have "menuOpen s \<longrightarrow> focusedOption (typeSearch p str s) = focusedOption s"
    by (simp add: typeSearch_def searchWatcher_def emit_def Let_def)
  moreover have "search s = [] \<longrightarrow> focusedOption (searchWatcher p s) = focusedOption s"
    by (simp add: searchWatcher_def emit_def Let_def)
  ultimately show ?thesis
    using setOption_focus [of p option s] removeOption_focus [of p option s]
      handleNavigation_focus [of e p s]
    by blast
qed

theorem focus_not_resolved_after_recomputation_witness:
  "menuOpen focusLast \<and> key enterKey \<noteq> ''ArrowDown'' \<and> key enterKey \<noteq> ''ArrowUp''
   \<and> handleNavigation stayOpenProps enterKey focusLast
       = Inr (focusLast\<lparr>selected := Seq [4], emitted := [OptionSelected optionD]\<rparr>)
   \<and> setOption stayOpenProps optionD focusLast
       = Inr (focusLast\<lparr>selected := Seq [4], emitted := [OptionSelected optionD]\<rparr>)
   \<and> removeOption stayOpenProps optionD focusLast
       = Inr (focusLast\<lparr>emitted := [OptionDeselected (Given optionD)]\<rparr>)
   \<and> focusedOption (focusLast\<lparr>selected := Seq [4], emitted := [OptionSelected optionD]\<rparr>)
       = focusedOption focusLast
   \<and> focusedOption (focusLast\<lparr>emitted := [OptionDeselected (Given optionD)]\<rparr>)
       = focusedOption focusLast
   \<and> focusedOption (typeSearch stayOpenProps ''d'' focusLast) = focusedOption focusLast
   \<and> search focusLast = []
   \<and> focusedOption (searchWatcher stayOpenProps focusLast) = focusedOption focusLast
   \<and> focusedOption (clear stayOpenProps focusLast) = focusedOption focusLast"
proof -
  have h1: "menuOpen focusLast" "search focusLast = []"
    by (simp_all add: focusLast_def mounted_def)
  have h2: "key enterKey \<noteq> ''ArrowDown'' \<and> key enterKey \<noteq> ''ArrowUp''"
    by (simp add: key_defs)
  have h3: "handleNavigation stayOpenProps enterKey focusLast
       = Inr (focusLast\<lparr>selected := Seq [4], emitted := [OptionSelected optionD]\<rparr>)"
    by (simp add: run_defs flat_defs key_defs example_defs stayOpenProps_def focusLast_def)
  have h4: "setOption stayOpenProps optionD focusLast
       = Inr (focusLast\<lparr>selected := Seq [4], emitted := [OptionSelected optionD]\<rparr>)"
    by (simp add: run_defs example_defs stayOpenProps_def focusLast_def)
  have h5: "removeOption stayOpenProps optionD focusLast
       = Inr (focusLast\<lparr>emitted := [OptionDeselected (Given optionD)]\<rparr>)"
    by (simp add: removeOption_def run_defs example_defs stayOpenProps_def focusLast_def)
  show ?thesis
    using h1 h2 h3 h4 h5
      focus_not_resolved_after_recomputation
        [of stayOpenProps focusLast True "''d''" optionD enterKey]
    by simp
qed

text \<open>
  The claim as written has an index outside the new flattened list never kept. In multi
  mode with \<open>closeOnSelect\<close> off and the last of four options focused, Enter selects
  that option; the visible list shrinks to three options and the focused index is still
  \<open>3\<close>.
\<close>

theorem focus_kept_outside_shrunk_list_counterexample:
  "availableOptionsGroupedFlat stayOpenProps focusLast = Inr [optionA, optionB, optionC, optionD]
   \<and> focusedOption focusLast = 3
   \<and> handleNavigation stayOpenProps enterKey focusLast
       = Inr (focusLast\<lparr>selected := Seq [4], emitted := [OptionSelected optionD]\<rparr>)
   \<and> availableOptionsGroupedFlat stayOpenProps
         (focusLast\<lparr>selected := Seq [4], emitted := [OptionSelected optionD]\<rparr>)
       = Inr [optionA, optionB, optionC]
   \<and> focusedOption (focusLast\<lparr>selected := Seq [4], emitted := [OptionSelected optionD]\<rparr>) = 3
   \<and> \<not> (3 < int (length [optionA, optionB, optionC]))"
  by (simp add: run_defs flat_defs key_defs example_defs stayOpenProps_def focusLast_def)

end
